theory Spec2Isabelle
  imports Complex_Main
begin

section \<open>Bernoulli restricted Boltzmann machine (boltzmann/brbm.py)\<close>

text \<open>
  Tensors of floating-point numbers are modelled by the real numbers they denote: a rank-1
  tensor is a list, a rank-2 tensor (a batch of rows) a list of rows, a rank-3 tensor a list
  of rank-2 tensors. Rounding, overflow and the IEEE special values of tensor arithmetic are
  not represented. An empty batch is the empty list, so its width is not represented.
  TensorFlow raises \<open>InvalidArgumentError\<close> when the shapes of the operands of an
  operation are incompatible; that is the error value of the tensor operations below.
\<close>

type_synonym vec = "real list"
type_synonym tensor = "real list list"
type_synonym tensor3 = "real list list list"

datatype error = InvalidArgumentError | UnboundLocalError | ValueError

text \<open>Sequencing of computations that may raise: the first error is the result.\<close>

definition bind :: "error + 'a \<Rightarrow> ('a \<Rightarrow> error + 'b) \<Rightarrow> error + 'b" where
  "bind m f = (case m of Inl e \<Rightarrow> Inl e | Inr x \<Rightarrow> f x)"

fun collect :: "(error + 'a) list \<Rightarrow> error + 'a list" where
  "collect [] = Inr []"
| "collect (m # ms) = bind m (\<lambda>x. bind (collect ms) (\<lambda>xs. Inr (x # xs)))"

subsection \<open>The TensorFlow operations the module uses\<close>

text \<open>
  An elementwise binary operation broadcasts: two dimensions are compatible when they are
  equal or one of them is 1. \<open>broadcast_vec\<close> is the operation on rank-1 tensors,
  \<open>elementwise\<close> on rank-2 tensors; a rank-1 operand \<open>b\<close> of a rank-2 operation
  is the one-row tensor \<open>[b]\<close>.
\<close>

definition broadcast_vec :: "(real \<Rightarrow> real \<Rightarrow> real) \<Rightarrow> vec \<Rightarrow> vec \<Rightarrow> error + vec" where
  "broadcast_vec f u v =
     (if length u = length v then Inr (map2 f u v)
      else (case u of [a] \<Rightarrow> Inr (map (f a) v)
            | _ \<Rightarrow> (case v of [b] \<Rightarrow> Inr (map (\<lambda>a. f a b) u)
                    | _ \<Rightarrow> Inl InvalidArgumentError)))"

definition elementwise :: "(real \<Rightarrow> real \<Rightarrow> real) \<Rightarrow> tensor \<Rightarrow> tensor \<Rightarrow> error + tensor" where
  "elementwise f x y =
     (if length x = length y then collect (map2 (broadcast_vec f) x y)
      else (case x of [xr] \<Rightarrow> collect (map (broadcast_vec f xr) y)
            | _ \<Rightarrow> (case y of [yr] \<Rightarrow> collect (map (\<lambda>xr. broadcast_vec f xr yr) x)
                    | _ \<Rightarrow> Inl InvalidArgumentError)))"

text \<open>
  \<open>x @ W\<close>: every row of \<open>x\<close> must have as many entries as \<open>W\<close> has rows; entry
  \<open>j\<close> of a result row is the dot product of the row with column \<open>j\<close> of \<open>W\<close>.
\<close>

definition dot :: "vec \<Rightarrow> vec \<Rightarrow> real" where
  "dot u v = sum_list (map2 (*) u v)"

definition matmul :: "tensor \<Rightarrow> tensor \<Rightarrow> error + tensor" where
  "matmul x W =
     (if list_all (\<lambda>row. length row = length W) x
      then Inr (map (\<lambda>row. map (dot row) (transpose W)) x)
      else Inl InvalidArgumentError)"

definition sigmoid :: "real \<Rightarrow> real" where
  "sigmoid a = 1 / (1 + exp (- a))"

definition tf_sigmoid :: "tensor \<Rightarrow> tensor" where
  "tf_sigmoid a = map (map sigmoid) a"

definition tf_where :: "bool list list \<Rightarrow> int \<Rightarrow> int \<Rightarrow> int list list" where
  "tf_where c a b = map (map (\<lambda>t. if t then a else b)) c"

definition tf_cast :: "int list list \<Rightarrow> tensor" where
  "tf_cast y = map (map real_of_int) y"

definition tf_abs :: "tensor \<Rightarrow> tensor" where
  "tf_abs t = map (map abs) t"

text \<open>
  \<open>tf.reduce_max\<close> over all entries; the maximum of a tensor without entries is minus
  infinity, here \<open>None\<close>, which is below every tolerance.
\<close>

definition reduce_max :: "tensor \<Rightarrow> real option" where
  "reduce_max t = (case concat t of [] \<Rightarrow> None | v # vs \<Rightarrow> Some (fold max vs v))"

definition below :: "real option \<Rightarrow> real \<Rightarrow> bool" where
  "below m tol = (case m of None \<Rightarrow> True | Some v \<Rightarrow> v < tol)"

definition reduce_sum_last :: "tensor \<Rightarrow> vec" where
  "reduce_sum_last t = map sum_list t"

definition reduce_mean_last :: "tensor \<Rightarrow> vec" where
  "reduce_mean_last t = map (\<lambda>row. sum_list row / real (length row)) t"

text \<open>
  \<open>tf.range(n)\<close> is the sequence 0, ..., n - 1, empty for \<open>n = 0\<close>; a negative limit is
  refused with \<open>InvalidArgumentError\<close>.
\<close>

definition tf_range :: "int \<Rightarrow> error + int list" where
  "tf_range n = (if n < 0 then Inl InvalidArgumentError else Inr [0..n - 1])"

definition shape :: "tensor \<Rightarrow> nat \<times> nat" where
  "shape t = (length t, case t of [] \<Rightarrow> 0 | row # _ \<Rightarrow> length row)"

subsection \<open>Module-level helpers\<close>

text \<open>
  \<open>outer(x, y) = expand_dims(x, -1) * expand_dims(y, -2)\<close>: for batches \<open>x\<close> of shape
  (B, a) and \<open>y\<close> of shape (B', l) the product of shapes (B, a, 1) and (B', 1, l); only
  the batch dimensions can disagree.
\<close>

definition outer_row :: "vec \<Rightarrow> vec \<Rightarrow> tensor" where
  "outer_row xr yr = map (\<lambda>xi. map (\<lambda>yj. xi * yj) yr) xr"

definition outer :: "tensor \<Rightarrow> tensor \<Rightarrow> error + tensor3" where
  "outer x y =
     (if length x = length y then Inr (map2 outer_row x y)
      else (case x of [xr] \<Rightarrow> Inr (map (outer_row xr) y)
            | _ \<Rightarrow> (case y of [yr] \<Rightarrow> Inr (map (\<lambda>xr. outer_row xr yr) x)
                    | _ \<Rightarrow> Inl InvalidArgumentError)))"

text \<open>
  The global random generator is an explicit state: the sequence of the uniform draws still
  to come. \<open>random\<close> takes the first B * n of them, row by row.
\<close>

type_synonym rng = "nat \<Rightarrow> real"

definition random :: "nat \<times> nat \<Rightarrow> rng \<Rightarrow> tensor \<times> rng" where
  "random shp g =
     (case shp of (B, n) \<Rightarrow>
        (map (\<lambda>r. map (\<lambda>c. g (r * n + c)) [0..<n]) [0..<B], \<lambda>k. g (k + B * n)))"

text \<open>
  \<open>expect(x) = tf.reduce_mean(x, axis=0)\<close>, the mean over the batch: of a rank-2 tensor
  a vector (\<open>expect\<close>), of a rank-3 tensor a rank-2 tensor (\<open>expect3\<close>). The mean of
  an empty batch, NaN in TensorFlow, has no counterpart here; the theorems about means are
  about non-empty batches.
\<close>

definition expect :: "tensor \<Rightarrow> vec" where
  "expect x = map (\<lambda>col. sum_list col / real (length x)) (transpose x)"

definition expect3 :: "tensor3 \<Rightarrow> tensor" where
  "expect3 x = map expect (transpose x)"

subsection \<open>The initializers of the ambient bias\<close>







subsection \<open>The model\<close>

record BernoulliRBM =
  ambient_size :: nat
  latent_size :: nat
  kernel :: tensor
  latent_bias :: vec
  ambient_bias :: vec

definition activate :: "tensor \<Rightarrow> bool \<Rightarrow> rng \<Rightarrow> tensor \<times> rng" where
  "activate prob stochastic g =
     (if \<not> stochastic
      then (tf_cast (tf_where (map (map (\<lambda>p. p \<ge> 1 / 2)) prob) 1 0), g)
      else (case random (shape prob) g of
              (u, g') \<Rightarrow> (tf_cast (tf_where (map2 (map2 (\<le>)) u prob) 1 0), g')))"

definition prob_latent_given_ambient :: "BernoulliRBM \<Rightarrow> tensor \<Rightarrow> error + tensor" where
  "prob_latent_given_ambient rbm ambient =
     (let W = kernel rbm; b = latent_bias rbm; x = ambient in
      bind (matmul x W) (\<lambda>xW.
      bind (elementwise (+) xW [b]) (\<lambda>a.
      Inr (tf_sigmoid a))))"

definition prob_ambient_given_latent :: "BernoulliRBM \<Rightarrow> tensor \<Rightarrow> error + tensor" where
  "prob_ambient_given_latent rbm latent =
     (let W = kernel rbm; v = ambient_bias rbm; h = latent in
      bind (matmul h (transpose W)) (\<lambda>hW.
      bind (elementwise (+) hW [v]) (\<lambda>a.
      Inr (tf_sigmoid a))))"


text \<open>
  \<open>for step in tf.range(max_iter)\<close>: the loop runs over the remaining steps; the
  variable \<open>step\<close> is unbound (\<open>None\<close>) until the first iteration binds it, and
  \<open>break\<close> leaves the loop before \<open>ambient\<close> is reassigned.
\<close>

fun relax_loop ::
  "BernoulliRBM \<Rightarrow> real \<Rightarrow> int list \<Rightarrow> tensor \<Rightarrow> int option \<Rightarrow> rng
     \<Rightarrow> error + ((tensor \<times> int option) \<times> rng)" where
  "relax_loop rbm tol [] ambient step g = Inr ((ambient, step), g)"
| "relax_loop rbm tol (s # rest) ambient step g =
     bind (prob_latent_given_ambient rbm ambient) (\<lambda>latent_prob.
     case activate latent_prob False g of (latent, g1) \<Rightarrow>
     bind (prob_ambient_given_latent rbm latent) (\<lambda>new_ambient_prob.
     case activate new_ambient_prob False g1 of (new_ambient, g2) \<Rightarrow>
     bind (elementwise (-) new_ambient ambient) (\<lambda>diff.
     if below (reduce_max (tf_abs diff)) tol
     then Inr ((ambient, Some s), g2)
     else relax_loop rbm tol rest new_ambient (Some s) g2)))"

definition relax ::
  "BernoulliRBM \<Rightarrow> tensor \<Rightarrow> int \<Rightarrow> real \<Rightarrow> rng \<Rightarrow> error + ((tensor \<times> int) \<times> rng)" where
  "relax rbm ambient max_iter tol g =
     bind (tf_range max_iter) (\<lambda>steps.
     bind (relax_loop rbm tol steps ambient None g) (\<lambda>((ambient', step), g').
     case step of None \<Rightarrow> Inl UnboundLocalError
     | Some s \<Rightarrow> Inr ((ambient', s), g')))"

text \<open>
  The operands of the energy are evaluated from left to right:
  \<open>- reduce_sum(x @ W * h, axis=-1) - reduce_mean(h * b, axis=-1) - reduce_mean(x * v, axis=-1)\<close>.
\<close>

definition get_energy :: "BernoulliRBM \<Rightarrow> tensor \<Rightarrow> tensor \<Rightarrow> error + vec" where
  "get_energy rbm ambient latent =
     (let x = ambient; h = latent;
          W = kernel rbm; b = latent_bias rbm; v = ambient_bias rbm in
      bind (matmul x W) (\<lambda>xW.
      bind (elementwise (*) xW h) (\<lambda>xWh.
      bind (elementwise (*) h [b]) (\<lambda>hb.
      bind (broadcast_vec (-) (map uminus (reduce_sum_last xWh)) (reduce_mean_last hb)) (\<lambda>e.
      bind (elementwise (*) x [v]) (\<lambda>xv.
      broadcast_vec (-) e (reduce_mean_last xv)))))))"

text \<open>
  A gradient or a parameter is a rank-1 or a rank-2 tensor. \<open>get_grads_and_vars\<close> receives
  the model object and the generator; the result carries the three pairs, the model object
  as the call leaves it, and the generator after the two stochastic activations.
\<close>

datatype tvalue = Rank1 vec | Rank2 tensor

definition get_grads_and_vars ::
  "BernoulliRBM \<Rightarrow> tensor \<Rightarrow> tensor \<Rightarrow> rng
     \<Rightarrow> error + ((tvalue \<times> tvalue) list \<times> BernoulliRBM \<times> rng)" where
  "get_grads_and_vars rbm real_ambient fantasy_latent g =
     bind (prob_latent_given_ambient rbm real_ambient) (\<lambda>real_latent_prob.
     case activate real_latent_prob True g of (real_latent, g1) \<Rightarrow>
     bind (prob_ambient_given_latent rbm fantasy_latent) (\<lambda>fantasy_ambient_prob.
     case activate fantasy_ambient_prob True g1 of (fantasy_ambient, g2) \<Rightarrow>
     bind (outer fantasy_ambient_prob fantasy_latent) (\<lambda>fantasy_outer.
     bind (outer real_ambient real_latent) (\<lambda>real_outer.
     bind (elementwise (-) (expect3 fantasy_outer) (expect3 real_outer)) (\<lambda>grad_kernel.
     bind (broadcast_vec (-) (expect fantasy_latent) (expect real_latent)) (\<lambda>grad_latent_bias.
     bind (broadcast_vec (-) (expect fantasy_ambient) (expect real_ambient)) (\<lambda>grad_ambient_bias.
     Inr ([(Rank2 grad_kernel, Rank2 (kernel rbm)),
           (Rank1 grad_latent_bias, Rank1 (latent_bias rbm)),
           (Rank1 grad_ambient_bias, Rank1 (ambient_bias rbm))], rbm, g2))))))))"

fun cd_loop :: "BernoulliRBM \<Rightarrow> int list \<Rightarrow> tensor \<Rightarrow> rng \<Rightarrow> error + (tensor \<times> rng)" where
  "cd_loop rbm [] fantasy_latent g = Inr (fantasy_latent, g)"
| "cd_loop rbm (s # rest) fantasy_latent g =
     bind (prob_ambient_given_latent rbm fantasy_latent) (\<lambda>fantasy_ambient_prob.
     case activate fantasy_ambient_prob True g of (fantasy_ambient, g1) \<Rightarrow>
     bind (prob_latent_given_ambient rbm fantasy_ambient) (\<lambda>fantasy_latent_prob.
     case activate fantasy_latent_prob True g1 of (fantasy_latent', g2) \<Rightarrow>
     cd_loop rbm rest fantasy_latent' g2))"

definition contrastive_divergence ::
  "BernoulliRBM \<Rightarrow> tensor \<Rightarrow> int \<Rightarrow> rng \<Rightarrow> error + (tensor \<times> rng)" where
  "contrastive_divergence rbm fantasy_latent mc_steps g =
     bind (tf_range mc_steps) (\<lambda>steps. cd_loop rbm steps fantasy_latent g)"

subsection \<open>The history of logged metrics\<close>

text \<open>
  A Python float is a finite number or one of the special values; no arithmetic is done on
  logged values, they are only stored and formatted. \<open>TfScalar\<close> is a scalar tensor of
  floats, whose \<open>numpy()\<close> is a NumPy floating scalar; integers, booleans and \<open>None\<close>
  stand for the values that are neither floats nor strings. A \<open>dict\<close> keeps its keys in
  insertion order; \<open>logs\<close> is a \<open>defaultdict(dict)\<close>, where reading a missing step
  stores an empty dict for it.
\<close>

datatype pyfloat = Finite real | NegZero | PosInf | NegInf | NaN

datatype pyvalue =
  PyFloat pyfloat | PyStr string | PyInt int | PyBool bool | PyNone | TfScalar pyfloat

type_synonym pydict = "(string \<times> pyvalue) list"

record History =
  logs :: "int \<Rightarrow> pydict option"

fun dict_set :: "pydict \<Rightarrow> string \<Rightarrow> pyvalue \<Rightarrow> pydict" where
  "dict_set [] k v = [(k, v)]"
| "dict_set ((k', v') # d) k v = (if k' = k then (k, v) # d else (k', v') # dict_set d k v)"

fun dict_get :: "pydict \<Rightarrow> string \<Rightarrow> pyvalue \<Rightarrow> pyvalue" where
  "dict_get [] k dflt = dflt"
| "dict_get ((k', v') # d) k dflt = (if k' = k then v' else dict_get d k dflt)"

definition getitem :: "History \<Rightarrow> int \<Rightarrow> pydict \<times> History" where
  "getitem h step =
     (case logs h step of
        None \<Rightarrow> ([], h\<lparr>logs := (logs h)(step \<mapsto> [])\<rparr>)
      | Some d \<Rightarrow> (d, h))"

definition History_init :: History where
  "History_init = \<lparr>logs = Map.empty\<rparr>"

definition History_log :: "History \<Rightarrow> int \<Rightarrow> string \<Rightarrow> pyvalue \<Rightarrow> History" where
  "History_log h step key val =
     (let val' = (case val of TfScalar f \<Rightarrow> PyFloat f | _ \<Rightarrow> val) in
      case getitem h step of
        (d, h1) \<Rightarrow> h1\<lparr>logs := (logs h1)(step \<mapsto> dict_set d key val')\<rparr>)"

text \<open>
  \<open>f'{v:.5f}'\<close>: the value rounded to five decimals, ties to even, with its sign; the
  special values have no digits.
\<close>

definition digit :: "nat \<Rightarrow> char" where
  "digit d =
     (if d = 0 then CHR ''0'' else if d = 1 then CHR ''1'' else if d = 2 then CHR ''2''
      else if d = 3 then CHR ''3'' else if d = 4 then CHR ''4'' else if d = 5 then CHR ''5''
      else if d = 6 then CHR ''6'' else if d = 7 then CHR ''7'' else if d = 8 then CHR ''8''
      else CHR ''9'')"

fun str_nat :: "nat \<Rightarrow> string" where
  "str_nat n = (if n < 10 then [digit n] else str_nat (n div 10) @ [digit (n mod 10)])"

declare str_nat.simps [simp del]

definition str_int :: "int \<Rightarrow> string" where
  "str_int i = (if i < 0 then ''-'' @ str_nat (nat (- i)) else str_nat (nat i))"

definition round_half_even :: "real \<Rightarrow> int" where
  "round_half_even x =
     (let f = \<lfloor>x\<rfloor>; d = x - of_int f in
      if d < 1 / 2 then f else if 1 / 2 < d then f + 1
      else if even f then f else f + 1)"

definition frac5 :: "nat \<Rightarrow> string" where
  "frac5 m = map (\<lambda>k. digit ((m div 10 ^ k) mod 10)) [4, 3, 2, 1, 0]"

definition format_5f :: "pyfloat \<Rightarrow> string" where
  "format_5f v =
     (case v of
        Finite r \<Rightarrow>
          (let n = nat (round_half_even (\<bar>r\<bar> * 100000)) in
           (if r < 0 then ''-'' else []) @ str_nat (n div 100000) @ ''.'' @ frac5 (n mod 100000))
      | NegZero \<Rightarrow> ''-0.00000''
      | PosInf \<Rightarrow> ''inf''
      | NegInf \<Rightarrow> ''-inf''
      | NaN \<Rightarrow> ''nan'')"

fun join :: "string \<Rightarrow> string list \<Rightarrow> string" where
  "join sep [] = []"
| "join sep [x] = x"
| "join sep (x # y # ys) = x @ sep @ join sep (y # ys)"

fun show_loop ::
  "History \<Rightarrow> int \<Rightarrow> string list \<Rightarrow> string list \<Rightarrow> (error + string list) \<times> History" where
  "show_loop h step [] aspects = (Inr aspects, h)"
| "show_loop h step (k # ks) aspects =
     (case getitem h step of
        (d, h1) \<Rightarrow>
          (case dict_get d k PyNone of
             PyFloat f \<Rightarrow> show_loop h1 step ks (aspects @ [k @ '': '' @ format_5f f])
           | PyStr s \<Rightarrow> show_loop h1 step ks (aspects @ [k @ '': '' @ s])
           | _ \<Rightarrow> (Inl ValueError, h1)))"

definition History_show ::
  "History \<Rightarrow> int \<Rightarrow> string list option \<Rightarrow> (error + string) \<times> History" where
  "History_show h step keys =
     (case (case keys of
              None \<Rightarrow> (case getitem h step of (d, h1) \<Rightarrow> (map fst d, h1))
            | Some ks \<Rightarrow> (ks, h)) of
        (keys', h1) \<Rightarrow>
          (case show_loop h1 step keys' [] of
             (r, h2) \<Rightarrow>
               (bind r (\<lambda>aspects. Inr (join '' - '' ((''step: '' @ str_int step) # aspects))),
                h2)))"

section \<open>Specification\<close>

subsection \<open>Shapes\<close>

text \<open>
  A batch of width \<open>n\<close> is a rank-2 tensor whose rows have \<open>n\<close> entries. The constructor
  of the model creates the kernel with shape (ambient size, latent size) and the biases with
  one entry per unit; both sizes are positive.
\<close>

definition batch :: "nat \<Rightarrow> tensor \<Rightarrow> bool" where
  "batch n x = list_all (\<lambda>row. length row = n) x"

definition wf_rbm :: "BernoulliRBM \<Rightarrow> bool" where
  "wf_rbm rbm =
     (0 < ambient_size rbm \<and> 0 < latent_size rbm \<and>
      length (kernel rbm) = ambient_size rbm \<and> batch (latent_size rbm) (kernel rbm) \<and>
      length (latent_bias rbm) = latent_size rbm \<and>
      length (ambient_bias rbm) = ambient_size rbm)"


subsection \<open>Stochastic dynamics\<close>

text \<open>Deterministic activation: 1 where the probability is at least 0.5, else 0.\<close>

definition threshold :: "tensor \<Rightarrow> tensor" where
  "threshold p = map (map (\<lambda>x. if 1 / 2 \<le> x then 1 else 0)) p"

text \<open>
  The conditional probabilities, unit by unit: \<open>sigmoid(ambient @ kernel + latent_bias)\<close>
  and \<open>sigmoid(latent @ transpose(kernel) + ambient_bias)\<close>.
\<close>

definition latent_prob :: "BernoulliRBM \<Rightarrow> tensor \<Rightarrow> tensor" where
  "latent_prob rbm x =
     map (\<lambda>row. map (\<lambda>j. sigmoid ((\<Sum>i<ambient_size rbm. row ! i * kernel rbm ! i ! j)
                               + latent_bias rbm ! j))
                    [0..<latent_size rbm]) x"

definition ambient_prob :: "BernoulliRBM \<Rightarrow> tensor \<Rightarrow> tensor" where
  "ambient_prob rbm h =
     map (\<lambda>row. map (\<lambda>i. sigmoid ((\<Sum>j<latent_size rbm. row ! j * kernel rbm ! i ! j)
                               + ambient_bias rbm ! i))
                    [0..<ambient_size rbm]) h"

text \<open>
  The energy of one row: minus the sum over the latent units of (ambient @ kernel) * latent,
  minus the mean of latent * latent_bias, minus the mean of ambient * ambient_bias.
\<close>

definition energy_row :: "BernoulliRBM \<Rightarrow> vec \<Rightarrow> vec \<Rightarrow> real" where
  "energy_row rbm xr hr =
     - (\<Sum>j<latent_size rbm. (\<Sum>i<ambient_size rbm. xr ! i * kernel rbm ! i ! j) * hr ! j)
     - (\<Sum>j<latent_size rbm. hr ! j * latent_bias rbm ! j) / real (latent_size rbm)
     - (\<Sum>i<ambient_size rbm. xr ! i * ambient_bias rbm ! i) / real (ambient_size rbm)"

text \<open>The textbook energy of a row sums the bias terms instead.\<close>

definition textbook_energy_row :: "BernoulliRBM \<Rightarrow> vec \<Rightarrow> vec \<Rightarrow> real" where
  "textbook_energy_row rbm xr hr =
     - (\<Sum>j<latent_size rbm. (\<Sum>i<ambient_size rbm. xr ! i * kernel rbm ! i ! j) * hr ! j)
     - (\<Sum>j<latent_size rbm. hr ! j * latent_bias rbm ! j)
     - (\<Sum>i<ambient_size rbm. xr ! i * ambient_bias rbm ! i)"

subsection \<open>Relaxation\<close>

text \<open>
  One relaxation round: deterministic latent activation from the ambient state, then
  deterministic ambient activation from that latent state. \<open>settle rbm n a\<close> is the state
  after \<open>n\<close> rounds from \<open>a\<close>; the change of a round is the maximum absolute
  elementwise difference between the state after it and the state before it.
\<close>

definition relaxation_round :: "BernoulliRBM \<Rightarrow> tensor \<Rightarrow> tensor" where
  "relaxation_round rbm a = threshold (ambient_prob rbm (threshold (latent_prob rbm a)))"

definition settle :: "BernoulliRBM \<Rightarrow> nat \<Rightarrow> tensor \<Rightarrow> tensor" where
  "settle rbm n a = (relaxation_round rbm ^^ n) a"

definition max_abs_change :: "tensor \<Rightarrow> tensor \<Rightarrow> real option" where
  "max_abs_change new old =
     (let ds = concat (map2 (map2 (\<lambda>a b. \<bar>a - b\<bar>)) new old) in
      if ds = [] then None else Some (Max (set ds)))"

definition converged_at :: "BernoulliRBM \<Rightarrow> real \<Rightarrow> tensor \<Rightarrow> nat \<Rightarrow> bool" where
  "converged_at rbm tol a n =
     below (max_abs_change (settle rbm (Suc n) a) (settle rbm n a)) tol"

subsection \<open>Gradient estimate and Gibbs chain\<close>

text \<open>
  The means over the batch, entry by entry: of the rows of a batch, and of the outer products
  of the corresponding rows of two batches.
\<close>

definition batch_mean :: "nat \<Rightarrow> tensor \<Rightarrow> vec" where
  "batch_mean n x = map (\<lambda>j. (\<Sum>k<length x. x ! k ! j) / real (length x)) [0..<n]"

definition batch_mean_outer :: "nat \<Rightarrow> nat \<Rightarrow> tensor \<Rightarrow> tensor \<Rightarrow> tensor" where
  "batch_mean_outer a l x y =
     map (\<lambda>i. map (\<lambda>j. (\<Sum>k<length x. x ! k ! i * y ! k ! j) / real (length x)) [0..<l])
         [0..<a]"

text \<open>
  One round of block Gibbs sampling: sample the ambient state given the latent state, then
  the latent state given that ambient state.
\<close>

definition gibbs_round :: "BernoulliRBM \<Rightarrow> tensor \<times> rng \<Rightarrow> error + (tensor \<times> rng)" where
  "gibbs_round rbm s =
     (case s of (latent, g) \<Rightarrow>
        bind (prob_ambient_given_latent rbm latent) (\<lambda>pa.
        case activate pa True g of (ambient, g1) \<Rightarrow>
        bind (prob_latent_given_ambient rbm ambient) (\<lambda>pl.
        Inr (activate pl True g1))))"

fun gibbs_rounds :: "nat \<Rightarrow> BernoulliRBM \<Rightarrow> tensor \<times> rng \<Rightarrow> error + (tensor \<times> rng)" where
  "gibbs_rounds 0 rbm s = Inr s"
| "gibbs_rounds (Suc n) rbm s = bind (gibbs_round rbm s) (gibbs_rounds n rbm)"

subsection \<open>Rendering\<close>

text \<open>A string has \<open>n\<close> decimal places when it ends with a point followed by \<open>n\<close> digits.\<close>

definition is_digit :: "char \<Rightarrow> bool" where
  "is_digit c = (c \<in> set ''0123456789'')"

definition decimal_places :: "nat \<Rightarrow> string \<Rightarrow> bool" where
  "decimal_places n s =
     (n < length s \<and> rev s ! n = CHR ''.'' \<and> list_all is_digit (take n (rev s)))"

definition supported :: "pyvalue \<Rightarrow> bool" where
  "supported v = (case v of PyFloat f \<Rightarrow> True | PyStr s \<Rightarrow> True | _ \<Rightarrow> False)"

definition render :: "pyvalue \<Rightarrow> string" where
  "render v = (case v of PyFloat f \<Rightarrow> format_5f f | PyStr s \<Rightarrow> s | _ \<Rightarrow> [])"

definition entries :: "History \<Rightarrow> int \<Rightarrow> pydict" where
  "entries h step = (case logs h step of None \<Rightarrow> [] | Some d \<Rightarrow> d)"

definition shown_keys :: "History \<Rightarrow> int \<Rightarrow> string list option \<Rightarrow> string list" where
  "shown_keys h step keys = (case keys of None \<Rightarrow> map fst (entries h step) | Some ks \<Rightarrow> ks)"

subsection \<open>Examples\<close>

definition example_rbm :: BernoulliRBM where
  "example_rbm =
     \<lparr>ambient_size = 2, latent_size = 1, kernel = [[1], [- 1]],
      latent_bias = [0], ambient_bias = [0, 0]\<rparr>"

definition energy_rbm :: BernoulliRBM where
  "energy_rbm =
     \<lparr>ambient_size = 2, latent_size = 2, kernel = [[1, 2], [3, 4]],
      latent_bias = [1, 3], ambient_bias = [2, 4]\<rparr>"

definition rng0 :: rng where
  "rng0 = (\<lambda>k. 0)"

section \<open>Verification\<close>

subsection \<open>Tensor operations on well-shaped operands\<close>

lemma batch_iff: "batch n x \<longleftrightarrow> (\<forall>row\<in>set x. length row = n)"
  by (simp add: batch_def list_all_iff)

lemma collect_map_Inr:
  "(\<And>x. x \<in> set xs \<Longrightarrow> g x = Inr (f x)) \<Longrightarrow> collect (map g xs) = Inr (map f xs)"
  by (induction xs) (simp_all add: bind_def)

lemma dot_sum:
  assumes "length u = n" "length v = n"
  shows "dot u v = (\<Sum>i<n. u ! i * v ! i)"
proof -
  have "dot u v = (\<Sum>i = 0..<n. map2 (*) u v ! i)"
    using assms by (simp add: dot_def sum_list_sum_nth)
  also have "\<dots> = (\<Sum>i = 0..<n. u ! i * v ! i)"
    using assms by (intro sum.cong) simp_all
  finally show ?thesis by (simp add: atLeast0LessThan)
qed

lemma transpose_rect:
  assumes "0 < length W" "batch l W"
  shows "transpose W = map (\<lambda>j. map (\<lambda>i. W ! i ! j) [0..<length W]) [0..<l]"
  using assms by (intro transpose_rectangle) (auto simp: batch_iff)

lemma matmul_rows:
  assumes "0 < length W" "batch l W" "batch (length W) x"
  shows "matmul x W = Inr (map (\<lambda>row. map (\<lambda>j. \<Sum>i<length W. row ! i * W ! i ! j) [0..<l]) x)"
proof -
  have "map (dot row) (transpose W) = map (\<lambda>j. \<Sum>i<length W. row ! i * W ! i ! j) [0..<l]"
    if "row \<in> set x" for row
  proof -
    have len: "length row = length W" using that assms(3) by (simp add: batch_iff)
    have "dot row (map (\<lambda>i. W ! i ! j) [0..<length W]) = (\<Sum>i<length W. row ! i * W ! i ! j)"
      for j
      using dot_sum [OF len, of "map (\<lambda>i. W ! i ! j) [0..<length W]"] by simp
    then show ?thesis using assms by (simp add: transpose_rect comp_def)
  qed
  then show ?thesis using assms(3) by (simp add: matmul_def batch_def)
qed

lemma broadcast_vec_same: "length u = length v \<Longrightarrow> broadcast_vec f u v = Inr (map2 f u v)"
  by (simp add: broadcast_vec_def)

lemma elementwise_bias:
  assumes "batch (length b) x"
  shows "elementwise f x [b] = Inr (map (\<lambda>row. map2 f row b) x)"
proof -
  have rows: "collect (map (\<lambda>row. broadcast_vec f row b) x) = Inr (map (\<lambda>row. map2 f row b) x)"
    using assms by (intro collect_map_Inr) (simp add: batch_iff broadcast_vec_same)
  show ?thesis
  proof (cases "length x = 1")
    case True
    then obtain row where "x = [row]" by (cases x) auto
    with rows show ?thesis by (simp add: elementwise_def)
  next
    case False
    then have "elementwise f x [b] = collect (map (\<lambda>row. broadcast_vec f row b) x)"
      by (auto simp: elementwise_def split: list.splits)
    with rows show ?thesis by simp
  qed
qed

lemma elementwise_same:
  assumes "length x = length y" "batch n x" "batch n y"
  shows "elementwise f x y = Inr (map2 (map2 f) x y)"
proof -
  have "broadcast_vec f r s = Inr (map2 f r s)" if "(r, s) \<in> set (zip x y)" for r s
  proof -
    have "r \<in> set x" "s \<in> set y"
      using that by (auto dest: set_zip_leftD set_zip_rightD)
    then show ?thesis using assms(2,3) by (simp add: batch_iff broadcast_vec_same)
  qed
  then have "collect (map (\<lambda>(r, s). broadcast_vec f r s) (zip x y)) =
             Inr (map (\<lambda>(r, s). map2 f r s) (zip x y))"
    by (intro collect_map_Inr) auto
  then show ?thesis using assms(1) by (simp add: elementwise_def)
qed

lemma map2_upt:
  "length b = l \<Longrightarrow> map2 f (map F [0..<l]) b = map (\<lambda>j. f (F j) (b ! j)) [0..<l]"
  by (rule nth_equalityI) simp_all

subsection \<open>The conditional probabilities\<close>

lemma prob_latent_given_ambient_eq:
  assumes "wf_rbm rbm" "batch (ambient_size rbm) x"
  shows "prob_latent_given_ambient rbm x = Inr (latent_prob rbm x)"
proof -
  let ?W = "kernel rbm" and ?l = "latent_size rbm"
  let ?xW = "map (\<lambda>row. map (\<lambda>j. \<Sum>i<length ?W. row ! i * ?W ! i ! j) [0..<?l]) x"
  have mm: "matmul x ?W = Inr ?xW"
    using assms by (intro matmul_rows) (simp_all add: wf_rbm_def)
  have "batch (length (latent_bias rbm)) ?xW"
    using assms by (simp add: batch_iff wf_rbm_def)
  then have "elementwise (+) ?xW [latent_bias rbm] =
             Inr (map (\<lambda>row. map2 (+) row (latent_bias rbm)) ?xW)"
    by (rule elementwise_bias)
  with mm show ?thesis
    using assms(1)
    by (simp add: prob_latent_given_ambient_def bind_def Let_def latent_prob_def tf_sigmoid_def
        map2_upt comp_def wf_rbm_def)
qed

lemma prob_ambient_given_latent_eq:
  assumes "wf_rbm rbm" "batch (latent_size rbm) h"
  shows "prob_ambient_given_latent rbm h = Inr (ambient_prob rbm h)"
proof -
  let ?W = "kernel rbm" and ?l = "latent_size rbm" and ?a = "ambient_size rbm"
  let ?Wt = "transpose ?W"
  let ?hW = "map (\<lambda>row. map (\<lambda>i. \<Sum>j<?l. row ! j * ?W ! i ! j) [0..<?a]) h"
  have Wt: "?Wt = map (\<lambda>j. map (\<lambda>i. ?W ! i ! j) [0..<?a]) [0..<?l]"
    using assms(1) transpose_rect [of ?W ?l] by (simp add: wf_rbm_def)
  have len: "length ?Wt = ?l" and "0 < length ?Wt" and "batch ?a ?Wt"
    using assms(1) by (simp_all add: Wt wf_rbm_def batch_iff)
  with assms(2) have "matmul h ?Wt =
      Inr (map (\<lambda>row. map (\<lambda>i. \<Sum>j<length ?Wt. row ! j * ?Wt ! j ! i) [0..<?a]) h)"
    by (intro matmul_rows) simp_all
  also have "(\<lambda>row. map (\<lambda>i. \<Sum>j<length ?Wt. row ! j * ?Wt ! j ! i) [0..<?a]) =
             (\<lambda>row. map (\<lambda>i. \<Sum>j<?l. row ! j * ?W ! i ! j) [0..<?a])"
    by (intro ext map_cong refl sum.cong) (simp_all add: Wt)
  finally have mm: "matmul h ?Wt = Inr ?hW" .
  have "batch (length (ambient_bias rbm)) ?hW"
    using assms by (simp add: batch_iff wf_rbm_def)
  then have "elementwise (+) ?hW [ambient_bias rbm] =
             Inr (map (\<lambda>row. map2 (+) row (ambient_bias rbm)) ?hW)"
    by (rule elementwise_bias)
  with mm show ?thesis
    using assms(1)
    by (simp add: prob_ambient_given_latent_def bind_def Let_def ambient_prob_def tf_sigmoid_def
        map2_upt comp_def wf_rbm_def)
qed

lemma batch_latent_prob: "batch (latent_size rbm) (latent_prob rbm x)"
  by (simp add: batch_iff latent_prob_def)

lemma batch_ambient_prob: "batch (ambient_size rbm) (ambient_prob rbm h)"
  by (simp add: batch_iff ambient_prob_def)

lemma length_latent_prob: "length (latent_prob rbm x) = length x"
  by (simp add: latent_prob_def)

lemma length_ambient_prob: "length (ambient_prob rbm h) = length h"
  by (simp add: ambient_prob_def)

lemma sigmoid_pos: "0 < sigmoid a"
  by (simp add: sigmoid_def add_pos_pos)

lemma sigmoid_ge_half: "1 / 2 \<le> sigmoid a \<longleftrightarrow> 0 \<le> a"
proof -
  have "1 / 2 \<le> sigmoid a \<longleftrightarrow> exp (- a) \<le> 1"
    by (simp add: sigmoid_def field_simps add_pos_pos)
  then show ?thesis by simp
qed

lemma sigmoid_ge_half2: "1 \<le> sigmoid a * 2 \<longleftrightarrow> 0 \<le> a"
  using sigmoid_ge_half [of a] by simp

subsection \<open>Activation\<close>

lemma activate_False: "activate p False g = (threshold p, g)"
  by (simp add: activate_def threshold_def tf_cast_def tf_where_def comp_def if_distrib)

lemma threshold_idem: "threshold (threshold p) = threshold p"
  by (simp add: threshold_def comp_def)

lemma batch_threshold: "batch n (threshold p) = batch n p"
  by (simp add: batch_iff threshold_def)

lemma length_threshold: "length (threshold p) = length p"
  by (simp add: threshold_def)

text \<open>
  C4. Without sampling, \<open>activate\<close> is the threshold at 0.5: every entry of the result is
  0 or 1, and it is 1 exactly where the probability is at least 0.5. The result does not
  depend on the generator and leaves it as it was, so two calls on the same tensor agree, and
  activating the result again gives the result.
\<close>

theorem activate_deterministic_idempotent:
  "fst (activate p False g) = map (map (\<lambda>x. if 1 / 2 \<le> x then 1 else 0)) p
   \<and> list_all (list_all (\<lambda>y. y = 0 \<or> y = 1)) (fst (activate p False g))
   \<and> fst (activate p False g') = fst (activate p False g)
   \<and> snd (activate p False g) = g
   \<and> fst (activate (fst (activate p False g)) False g') = fst (activate p False g)"
  by (simp add: activate_False threshold_idem) (auto simp: threshold_def list_all_iff)

theorem activate_deterministic_idempotent_witness:
  "fst (activate [[3 / 10, 1 / 2], [7 / 10, 1]] False rng0) = [[0, 1], [1, 1]]
   \<and> fst (activate [[0, 1], [1, 1]] False rng0) = [[0, 1], [1, 1]]"
  using activate_deterministic_idempotent
    [of "[[3 / 10, 1 / 2], [7 / 10, 1]]" rng0 rng0]
  by auto

subsection \<open>The Gibbs chain\<close>

lemma tf_range_nonneg: "0 \<le> n \<Longrightarrow> tf_range n = Inr [0..n - 1]"
  by (simp add: tf_range_def)

lemma length_steps: "length [0..n - 1] = nat n"
  by simp

lemma cd_loop_rounds: "cd_loop rbm steps fl g = gibbs_rounds (length steps) rbm (fl, g)"
proof (induction steps arbitrary: fl g)
  case Nil
  show ?case by simp
next
  case (Cons s rest)
  show ?case
    by (simp add: gibbs_round_def bind_def Cons.IH split: sum.splits prod.splits)
qed

text \<open>
  C6. With \<open>mc_steps = 0\<close> the chain updater returns the latent state it was given (and
  draws nothing); with \<open>mc_steps = n\<close> it performs exactly \<open>n\<close> rounds of block Gibbs
  sampling, each sampling the ambient state given the latent state and then the latent state
  given that ambient state, and returns the latent state after the last round.
\<close>

theorem contrastive_divergence_rounds:
  "contrastive_divergence rbm fl 0 g = Inr (fl, g)
   \<and> contrastive_divergence rbm fl (int n) g = gibbs_rounds n rbm (fl, g)"
  by (simp add: contrastive_divergence_def cd_loop_rounds tf_range_nonneg bind_def)

lemma gibbs_round_example: "gibbs_round example_rbm ([[0]], rng0) = Inr ([[1]], rng0)"
  by (simp add: gibbs_round_def prob_latent_given_ambient_def prob_ambient_given_latent_def
      example_rbm_def matmul_def dot_def elementwise_def broadcast_vec_def bind_def
      tf_sigmoid_def activate_def random_def shape_def tf_where_def tf_cast_def rng0_def
      sigmoid_pos less_imp_le)

theorem contrastive_divergence_rounds_witness:
  "contrastive_divergence example_rbm [[0]] 0 rng0 = Inr ([[0]], rng0)
   \<and> contrastive_divergence example_rbm [[0]] 1 rng0 = Inr ([[1]], rng0)"
  using contrastive_divergence_rounds [of example_rbm "[[0]]" rng0 1]
  by (simp add: gibbs_round_example bind_def)

subsection \<open>The gradient estimate\<close>

text \<open>
  C7. A call of \<open>get_grads_and_vars\<close> that returns leaves the model as it was: kernel,
  biases and sizes are those of the model it received, and the parameters it pairs the
  gradients with are the model's own kernel, latent bias and ambient bias.
\<close>

theorem get_grads_and_vars_frame:
  "get_grads_and_vars rbm real_ambient fantasy_latent g = Inr (gv, rbm', g')
   \<Longrightarrow> rbm' = rbm
       \<and> map snd gv = [Rank2 (kernel rbm), Rank1 (latent_bias rbm), Rank1 (ambient_bias rbm)]"
  by (auto simp: get_grads_and_vars_def bind_def split: sum.splits prod.splits)

lemma get_grads_and_vars_example:
  "get_grads_and_vars example_rbm [[0, 1]] [[1]] rng0 =
   Inr ([(Rank2 [[sigmoid 1], [sigmoid (- 1) - 1]], Rank2 [[1], [- 1]]),
         (Rank1 [0], Rank1 [0]),
         (Rank1 [1, 0], Rank1 [0, 0])], example_rbm, rng0)"
  by (simp add: get_grads_and_vars_def prob_latent_given_ambient_def
      prob_ambient_given_latent_def example_rbm_def matmul_def dot_def elementwise_def
      broadcast_vec_def bind_def tf_sigmoid_def activate_def random_def shape_def tf_where_def
      tf_cast_def rng0_def sigmoid_pos less_imp_le outer_def outer_row_def expect_def
      expect3_def)

theorem get_grads_and_vars_frame_witness:
  "get_grads_and_vars example_rbm [[0, 1]] [[1]] rng0 =
   Inr ([(Rank2 [[sigmoid 1], [sigmoid (- 1) - 1]], Rank2 [[1], [- 1]]),
         (Rank1 [0], Rank1 [0]),
         (Rank1 [1, 0], Rank1 [0, 0])], example_rbm, rng0)
   \<and> map snd [(Rank2 [[sigmoid 1], [sigmoid (- 1) - 1]], Rank2 [[1], [- 1]]),
               (Rank1 [0], Rank1 [0]),
               (Rank1 [1, 0], Rank1 [0, 0])] =
       [Rank2 (kernel example_rbm), Rank1 (latent_bias example_rbm),
        Rank1 (ambient_bias example_rbm)]"
  using get_grads_and_vars_frame [OF get_grads_and_vars_example] get_grads_and_vars_example
  by (simp add: example_rbm_def)

subsection \<open>Relaxation\<close>

text \<open>
  C10. \<open>relax\<close> returns only when \<open>max_iter \<ge> 1\<close>. For \<open>max_iter = 0\<close> the loop body
  never runs, the variable \<open>step\<close> is never bound, and the call fails with
  \<open>UnboundLocalError\<close> instead of returning the state with index 0. For a negative
  \<open>max_iter\<close> the call fails as well, earlier: \<open>tf.range\<close> refuses the limit.
\<close>

theorem relax_unbound_step:
  "max_iter \<le> 0 \<Longrightarrow>
   relax rbm ambient max_iter tol g =
     Inl (if max_iter = 0 then UnboundLocalError else InvalidArgumentError)"
  by (simp add: relax_def tf_range_def bind_def)

theorem relax_unbound_step_witness:
  "relax example_rbm [[0, 1]] 0 (1 / 2) rng0 = Inl UnboundLocalError
   \<and> relax example_rbm [[0, 1]] (- 1) (1 / 2) rng0 = Inl InvalidArgumentError"
  using relax_unbound_step [of 0 example_rbm "[[0, 1]]" "1 / 2" rng0]
    relax_unbound_step [of "- 1" example_rbm "[[0, 1]]" "1 / 2" rng0]
  by simp

lemma tf_abs_diff:
  "tf_abs (map2 (map2 (-)) new old) = map2 (map2 (\<lambda>a b. \<bar>a - b\<bar>)) new old"
  by (simp add: tf_abs_def comp_def case_prod_unfold)

lemma fold_max_Max:
  "(case ds of [] \<Rightarrow> None | v # vs \<Rightarrow> Some (fold max vs v)) =
   (if ds = [] then None else Some (Max (set ds)))" for ds :: "real list"
  by (cases ds) (simp_all add: Max.set_eq_fold del: set_simps)

lemma reduce_max_abs_diff:
  "reduce_max (tf_abs (map2 (map2 (-)) new old)) = max_abs_change new old"
  unfolding reduce_max_def max_abs_change_def tf_abs_diff fold_max_Max Let_def ..

lemma elementwise_self: "elementwise f x x = Inr (map2 (map2 f) x x)"
proof -
  have "collect (map (\<lambda>(r, s). broadcast_vec f r s) (zip x x)) =
        Inr (map (\<lambda>(r, s). map2 f r s) (zip x x))"
    by (intro collect_map_Inr) (auto simp: zip_same broadcast_vec_same)
  then show ?thesis by (simp add: elementwise_def)
qed

lemma max_abs_change_self:
  "max_abs_change a a = (if concat a = [] then None else Some 0)"
proof -
  have ds: "concat (map2 (map2 (\<lambda>a b. \<bar>a - b\<bar>)) a a) = map (\<lambda>x. 0) (concat a)"
    by (simp add: zip_same_conv_map comp_def map_concat)
  show ?thesis
  proof (cases "concat a = []")
    case True
    then show ?thesis unfolding max_abs_change_def ds by simp
  next
    case False
    then have "set (map (\<lambda>x. 0::real) (concat a)) = {0}"
      by (cases "concat a") auto
    then have "Max (set (map (\<lambda>x. 0::real) (concat a))) = 0"
      by (simp only: Max_singleton)
    then have "max_abs_change a a = Some 0"
      unfolding max_abs_change_def ds Let_def using False by (simp only: map_is_Nil_conv if_False)
    with False show ?thesis by simp
  qed
qed

lemma below_self: "below (max_abs_change a a) tol \<longleftrightarrow> concat a = [] \<or> 0 < tol"
  by (auto simp: max_abs_change_self below_def)

lemma relax_loop_step:
  assumes "wf_rbm rbm" "batch (ambient_size rbm) a"
  shows "relax_loop rbm tol (s # rest) a st g =
         (if below (max_abs_change (relaxation_round rbm a) a) tol
          then Inr ((a, Some s), g)
          else relax_loop rbm tol rest (relaxation_round rbm a) (Some s) g)"
proof -
  let ?h = "threshold (latent_prob rbm a)"
  let ?new = "relaxation_round rbm a"
  have h: "batch (latent_size rbm) ?h"
    by (simp add: batch_threshold batch_latent_prob)
  have new: "batch (ambient_size rbm) ?new" "length ?new = length a"
    by (simp_all add: relaxation_round_def batch_threshold batch_ambient_prob length_threshold
        length_ambient_prob length_latent_prob)
  have diff: "elementwise (-) ?new a = Inr (map2 (map2 (-)) ?new a)"
    using new assms(2) by (intro elementwise_same) simp_all
  show ?thesis
    using diff
    by (simp add: prob_latent_given_ambient_eq [OF assms] activate_False bind_def
        prob_ambient_given_latent_eq [OF assms(1) h] reduce_max_abs_diff
        relaxation_round_def [symmetric])
qed

lemma batch_relaxation_round: "batch (ambient_size rbm) (relaxation_round rbm a)"
  by (simp add: relaxation_round_def batch_threshold batch_ambient_prob)

lemma settle_Suc: "settle rbm (Suc n) a = settle rbm n (relaxation_round rbm a)"
  by (simp add: settle_def funpow_swap1)

lemma converged_at_Suc:
  "converged_at rbm tol a (Suc n) = converged_at rbm tol (relaxation_round rbm a) n"
  by (simp add: converged_at_def settle_Suc)

lemma relax_loop_converges:
  assumes "wf_rbm rbm" "batch (ambient_size rbm) a" "k < length steps"
    and "converged_at rbm tol a k" "\<And>j. j < k \<Longrightarrow> \<not> converged_at rbm tol a j"
  shows "relax_loop rbm tol steps a st g = Inr ((settle rbm k a, Some (steps ! k)), g)"
  using assms(2-)
proof (induction steps arbitrary: a k st)
  case Nil
  then show ?case by simp
next
  case (Cons s rest)
  show ?case
  proof (cases k)
    case 0
    with Cons.prems(3) have "below (max_abs_change (relaxation_round rbm a) a) tol"
      by (simp add: converged_at_def settle_def)
    with 0 show ?thesis
      by (simp add: relax_loop_step [OF assms(1) Cons.prems(1)] settle_def del: relax_loop.simps(2))
  next
    case (Suc k')
    with Cons.prems(4) [of 0] have "\<not> below (max_abs_change (relaxation_round rbm a) a) tol"
      by (simp add: converged_at_def settle_def)
    moreover have "relax_loop rbm tol rest (relaxation_round rbm a) (Some s) g =
        Inr ((settle rbm k' (relaxation_round rbm a), Some (rest ! k')), g)"
    proof (rule Cons.IH)
      show "batch (ambient_size rbm) (relaxation_round rbm a)"
        by (rule batch_relaxation_round)
      show "k' < length rest" using Cons.prems(2) Suc by simp
      show "converged_at rbm tol (relaxation_round rbm a) k'"
        using Cons.prems(3) Suc by (simp add: converged_at_Suc)
      show "\<not> converged_at rbm tol (relaxation_round rbm a) j" if "j < k'" for j
        using Cons.prems(4) [of "Suc j"] that Suc by (simp add: converged_at_Suc)
    qed
    ultimately show ?thesis
      using Suc by (simp add: relax_loop_step [OF assms(1) Cons.prems(1)] settle_Suc del: relax_loop.simps(2))
  qed
qed

lemma relax_loop_exhausts:
  assumes "wf_rbm rbm" "batch (ambient_size rbm) a" "steps \<noteq> []"
    and "\<And>j. j < length steps \<Longrightarrow> \<not> converged_at rbm tol a j"
  shows "relax_loop rbm tol steps a st g =
         Inr ((settle rbm (length steps) a, Some (last steps)), g)"
  using assms(2-)
proof (induction steps arbitrary: a st)
  case Nil
  then show ?case by simp
next
  case (Cons s rest)
  from Cons.prems(3) [of 0] have no: "\<not> below (max_abs_change (relaxation_round rbm a) a) tol"
    by (simp add: converged_at_def settle_def)
  show ?case
  proof (cases "rest = []")
    case True
    with no show ?thesis
      by (simp add: relax_loop_step [OF assms(1) Cons.prems(1)] settle_def del: relax_loop.simps(2))
  next
    case False
    have "relax_loop rbm tol rest (relaxation_round rbm a) (Some s) g =
        Inr ((settle rbm (length rest) (relaxation_round rbm a), Some (last rest)), g)"
    proof (rule Cons.IH)
      show "batch (ambient_size rbm) (relaxation_round rbm a)"
        by (rule batch_relaxation_round)
      show "rest \<noteq> []" by (rule False)
      show "\<not> converged_at rbm tol (relaxation_round rbm a) j" if "j < length rest" for j
        using Cons.prems(3) [of "Suc j"] that by (simp add: converged_at_Suc)
    qed
    with no False show ?thesis
      by (simp add: relax_loop_step [OF assms(1) Cons.prems(1)] settle_Suc del: relax_loop.simps(2))
  qed
qed

lemma nth_steps: "k < nat n \<Longrightarrow> [0..n - 1] ! k = int k"
  by simp

lemma last_steps: "1 \<le> n \<Longrightarrow> last [0..n - 1] = n - 1"
  by (simp add: upto_rec2)

lemma steps_nonempty: "1 \<le> n \<Longrightarrow> [0..n - 1] \<noteq> []"
  by simp


lemma hd_steps: "1 \<le> n \<Longrightarrow> hd [0..n - 1] = 0"
  by (simp add: upto.simps)

text \<open>
  C1 (amended). For a well-shaped model and a batch of its ambient width, with
  \<open>max_iter \<ge> 1\<close>, \<open>relax\<close> returns, and the index it returns is at least 0 and at most
  \<open>max_iter - 1\<close>, so it never runs more than \<open>max_iter\<close> rounds. It stops in the first
  round whose change is below \<open>tol\<close>: it then returns the state before that round together
  with the 0-based index of that round. When no round converged it returns the state after
  \<open>max_iter\<close> rounds together with \<open>max_iter - 1\<close>, the index of the last round, not
  \<open>max_iter\<close>.
\<close>

theorem relax_iterations:
  assumes "wf_rbm rbm" "batch (ambient_size rbm) ambient" "1 \<le> max_iter"
  shows "(\<exists>a k. relax rbm ambient max_iter tol g = Inr ((a, k), g) \<and> 0 \<le> k \<and> k \<le> max_iter - 1)
    \<and> (\<forall>k<nat max_iter.
          converged_at rbm tol ambient k \<and> (\<forall>j<k. \<not> converged_at rbm tol ambient j)
          \<longrightarrow> relax rbm ambient max_iter tol g = Inr ((settle rbm k ambient, int k), g))
    \<and> ((\<forall>j<nat max_iter. \<not> converged_at rbm tol ambient j)
          \<longrightarrow> relax rbm ambient max_iter tol g =
              Inr ((settle rbm (nat max_iter) ambient, max_iter - 1), g))"
proof -
  let ?conv = "converged_at rbm tol ambient"
  have stop: "relax rbm ambient max_iter tol g = Inr ((settle rbm k ambient, int k), g)"
    if "k < nat max_iter" "?conv k" "\<forall>j<k. \<not> ?conv j" for k
  proof -
    have "relax_loop rbm tol [0..max_iter - 1] ambient None g =
          Inr ((settle rbm k ambient, Some ([0..max_iter - 1] ! k)), g)"
      using assms(1,2) that by (intro relax_loop_converges) (simp_all add: length_steps)
    with that(1) assms(3) show ?thesis
      by (simp add: relax_def bind_def tf_range_nonneg nth_steps del: nth_upto)
  qed
  have exhaust: "relax rbm ambient max_iter tol g =
      Inr ((settle rbm (nat max_iter) ambient, max_iter - 1), g)"
    if "\<forall>j<nat max_iter. \<not> ?conv j"
  proof -
    have "relax_loop rbm tol [0..max_iter - 1] ambient None g =
          Inr ((settle rbm (length [0..max_iter - 1]) ambient,
                Some (last [0..max_iter - 1])), g)"
      using assms that
      by (intro relax_loop_exhausts) (simp_all add: length_steps)
    with assms(3) show ?thesis
      by (simp add: relax_def bind_def tf_range_nonneg last_steps)
  qed
  have returns: "\<exists>a k. relax rbm ambient max_iter tol g = Inr ((a, k), g) \<and> 0 \<le> k \<and> k \<le> max_iter - 1"
  proof (cases "\<exists>j<nat max_iter. ?conv j")
    case True
    then obtain j where j: "j < nat max_iter" "?conv j" by blast
    define k where "k = (LEAST i. ?conv i)"
    have "?conv k" unfolding k_def using j(2) by (rule LeastI)
    moreover have "k \<le> j" unfolding k_def using j(2) by (rule Least_le)
    moreover have "\<forall>i<k. \<not> ?conv i" unfolding k_def using not_less_Least by blast
    ultimately have "relax rbm ambient max_iter tol g = Inr ((settle rbm k ambient, int k), g)"
      and "k < nat max_iter"
      using j(1) stop by simp_all
    then show ?thesis by (intro exI [of _ "settle rbm k ambient"] exI [of _ "int k"]) simp
  next
    case False
    then have "relax rbm ambient max_iter tol g =
      Inr ((settle rbm (nat max_iter) ambient, max_iter - 1), g)"
      using exhaust by blast
    with assms(3) show ?thesis by simp
  qed
  from stop exhaust returns show ?thesis by blast
qed

lemma eval_round_01: "relaxation_round example_rbm [[0, 1]] = [[1, 1]]"
  by (simp add: relaxation_round_def latent_prob_def ambient_prob_def example_rbm_def
      lessThan_Suc numeral_2_eq_2 threshold_def sigmoid_ge_half2)

lemma eval_round_11: "relaxation_round example_rbm [[1, 1]] = [[1, 0]]"
  by (simp add: relaxation_round_def latent_prob_def ambient_prob_def example_rbm_def
      lessThan_Suc numeral_2_eq_2 threshold_def sigmoid_ge_half2)

lemma eval_round_10: "relaxation_round example_rbm [[1, 0]] = [[1, 0]]"
  by (simp add: relaxation_round_def latent_prob_def ambient_prob_def example_rbm_def
      lessThan_Suc numeral_2_eq_2 threshold_def sigmoid_ge_half2)

lemma eval_settle:
  "settle example_rbm 0 [[0, 1]] = [[0, 1]]"
  "settle example_rbm 1 [[0, 1]] = [[1, 1]]"
  "settle example_rbm 2 [[0, 1]] = [[1, 0]]"
  "settle example_rbm 3 [[0, 1]] = [[1, 0]]"
  by (simp_all add: settle_def eval_nat_numeral eval_round_01 eval_round_11 eval_round_10)

lemma eval_converged:
  "\<not> converged_at example_rbm (1 / 2) [[0, 1]] 0"
  "\<not> converged_at example_rbm (1 / 2) [[0, 1]] 1"
  "converged_at example_rbm (1 / 2) [[0, 1]] 2"
  using eval_settle
  by (simp_all add: converged_at_def eval_nat_numeral max_abs_change_def below_def)

lemma wf_example_rbm: "wf_rbm example_rbm"
  by (simp add: wf_rbm_def example_rbm_def batch_def)

theorem relax_iterations_witness:
  "wf_rbm example_rbm \<and> batch (ambient_size example_rbm) [[0, 1]]
   \<and> relax example_rbm [[0, 1]] 5 (1 / 2) rng0 = Inr (([[1, 0]], 2), rng0)
   \<and> relax example_rbm [[0, 1]] 2 (1 / 2) rng0 = Inr (([[1, 0]], 1), rng0)"
proof -
  have b: "batch (ambient_size example_rbm) [[0, 1]]"
    by (simp add: batch_def example_rbm_def)
  have early: "\<forall>j<2. \<not> converged_at example_rbm (1 / 2) [[0, 1]] j"
    using eval_converged(1,2) by (auto simp: less_2_cases_iff)
  from relax_iterations [OF wf_example_rbm b, of 5 "1 / 2" rng0]
  have "\<forall>k<nat 5. converged_at example_rbm (1 / 2) [[0, 1]] k
          \<and> (\<forall>j<k. \<not> converged_at example_rbm (1 / 2) [[0, 1]] j)
          \<longrightarrow> relax example_rbm [[0, 1]] 5 (1 / 2) rng0 =
              Inr ((settle example_rbm k [[0, 1]], int k), rng0)"
    by simp
  then have "2 < nat 5 \<longrightarrow> converged_at example_rbm (1 / 2) [[0, 1]] 2
          \<and> (\<forall>j<2. \<not> converged_at example_rbm (1 / 2) [[0, 1]] j)
          \<longrightarrow> relax example_rbm [[0, 1]] 5 (1 / 2) rng0 =
              Inr ((settle example_rbm 2 [[0, 1]], int 2), rng0)"
    by (rule spec)
  then have five: "relax example_rbm [[0, 1]] 5 (1 / 2) rng0 = Inr (([[1, 0]], 2), rng0)"
    using eval_converged(3) early eval_settle(3) by simp
  from relax_iterations [OF wf_example_rbm b, of 2 "1 / 2" rng0] early
  have two: "relax example_rbm [[0, 1]] 2 (1 / 2) rng0 = Inr (([[1, 0]], 1), rng0)"
    using eval_settle(3) by simp
  from wf_example_rbm b five two show ?thesis by simp
qed

lemmas eval_relax =
  relax_def tf_range_def upto.simps prob_latent_given_ambient_def
  prob_ambient_given_latent_def example_rbm_def matmul_def dot_def elementwise_def
  broadcast_vec_def bind_def tf_sigmoid_def activate_False threshold_def sigmoid_ge_half2
  reduce_max_def tf_abs_def below_def

text \<open>
  The claim as stated fails: from \<open>[[0, 1]]\<close> with \<open>max_iter = 2\<close> neither round
  converges, and the index returned is 1, not 2.
\<close>

theorem relax_count_counterexample:
  "relax example_rbm [[0, 1]] 2 (1 / 2) rng0 = Inr (([[1, 0]], 1), rng0)
   \<and> \<not> converged_at example_rbm (1 / 2) [[0, 1]] 0
   \<and> \<not> converged_at example_rbm (1 / 2) [[0, 1]] 1"
  using eval_converged(1,2) by (simp add: eval_relax)

lemma relax_loop_fixed_point_step:
  assumes "prob_latent_given_ambient rbm a = Inr lp"
    and "prob_ambient_given_latent rbm (threshold lp) = Inr ap"
    and "threshold ap = a"
  shows "relax_loop rbm tol (s # rest) a st g =
         (if concat a = [] \<or> 0 < tol then Inr ((a, Some s), g)
          else relax_loop rbm tol rest a (Some s) g)"
  using assms
  by (simp add: activate_False bind_def elementwise_self reduce_max_abs_diff below_self)

lemma relax_loop_fixed_point:
  assumes "prob_latent_given_ambient rbm a = Inr lp"
    and "prob_ambient_given_latent rbm (threshold lp) = Inr ap"
    and "threshold ap = a"
    and "steps \<noteq> []"
  shows "relax_loop rbm tol steps a st g =
         Inr ((a, Some (if concat a = [] \<or> 0 < tol then hd steps else last steps)), g)"
  using assms(4)
proof (induction steps arbitrary: st)
  case Nil
  then show ?case by simp
next
  case (Cons s rest)
  show ?case
  proof (cases "rest = []")
    case True
    then show ?thesis
      by (simp add: relax_loop_fixed_point_step [OF assms(1-3)] del: relax_loop.simps(2))
  next
    case False
    with Cons.IH [of "Some s"] show ?thesis
      by (simp add: relax_loop_fixed_point_step [OF assms(1-3)] del: relax_loop.simps(2))
  qed
qed

text \<open>
  C5 (amended). Let the ambient state be a fixed point of one relaxation round:
  deterministic latent activation followed by deterministic ambient activation reproduces it.
  With \<open>max_iter \<ge> 1\<close>, \<open>relax\<close> returns that state unchanged for every \<open>tol\<close>. It
  returns on iteration 0 when \<open>tol > 0\<close>. When \<open>tol \<le> 0\<close> the change 0 of a state with at
  least one entry is not below \<open>tol\<close>, every round runs, and the index returned is
  \<open>max_iter - 1\<close>.
\<close>

theorem relax_fixed_point:
  assumes "prob_latent_given_ambient rbm ambient = Inr lp"
    and "prob_ambient_given_latent rbm (fst (activate lp False g)) = Inr ap"
    and "fst (activate ap False g) = ambient"
    and "1 \<le> max_iter"
  shows "(\<exists>k. relax rbm ambient max_iter tol g = Inr ((ambient, k), g) \<and> 0 \<le> k \<and> k < max_iter)
    \<and> (0 < tol \<longrightarrow> relax rbm ambient max_iter tol g = Inr ((ambient, 0), g))
    \<and> (tol \<le> 0 \<and> concat ambient \<noteq> []
          \<longrightarrow> relax rbm ambient max_iter tol g = Inr ((ambient, max_iter - 1), g))"
proof -
  have "relax_loop rbm tol [0..max_iter - 1] ambient None g =
        Inr ((ambient, Some (if concat ambient = [] \<or> 0 < tol then hd [0..max_iter - 1]
                             else last [0..max_iter - 1])), g)"
    using assms by (intro relax_loop_fixed_point) (simp_all add: activate_False)
  then have "relax rbm ambient max_iter tol g =
        Inr ((ambient, if concat ambient = [] \<or> 0 < tol then 0 else max_iter - 1), g)"
    using assms(4) by (simp add: relax_def bind_def tf_range_nonneg hd_steps last_steps)
  with assms(4) show ?thesis by auto
qed

theorem relax_fixed_point_witness:
  "prob_latent_given_ambient example_rbm [[1, 0]] = Inr [[sigmoid 1]]
   \<and> prob_ambient_given_latent example_rbm (fst (activate [[sigmoid 1]] False rng0)) =
       Inr [[sigmoid 1, sigmoid (- 1)]]
   \<and> fst (activate [[sigmoid 1, sigmoid (- 1)]] False rng0) = [[1, 0]]
   \<and> relax example_rbm [[1, 0]] 3 (1 / 2) rng0 = Inr (([[1, 0]], 0), rng0)"
proof -
  have 1: "prob_latent_given_ambient example_rbm [[1, 0]] = Inr [[sigmoid 1]]"
    by (simp add: eval_relax)
  have 2: "prob_ambient_given_latent example_rbm (fst (activate [[sigmoid 1]] False rng0)) =
       Inr [[sigmoid 1, sigmoid (- 1)]]"
    by (simp add: eval_relax)
  have 3: "fst (activate [[sigmoid 1, sigmoid (- 1)]] False rng0) = [[1, 0]]"
    by (simp add: eval_relax)
  from relax_fixed_point [OF 1 2 3, of 3 "1 / 2"] 1 2 3 show ?thesis by simp
qed

text \<open>
  The claim as stated fails for \<open>tol = 0\<close>: \<open>[[1, 0]]\<close> is a fixed point, and with
  \<open>max_iter = 3\<close> the call returns on iteration 2.
\<close>

theorem relax_fixed_point_counterexample:
  "prob_latent_given_ambient example_rbm [[1, 0]] = Inr [[sigmoid 1]]
   \<and> prob_ambient_given_latent example_rbm (fst (activate [[sigmoid 1]] False rng0)) =
       Inr [[sigmoid 1, sigmoid (- 1)]]
   \<and> fst (activate [[sigmoid 1, sigmoid (- 1)]] False rng0) = [[1, 0]]
   \<and> relax example_rbm [[1, 0]] 3 0 rng0 = Inr (([[1, 0]], 2), rng0)"
  by (simp add: eval_relax)

subsection \<open>The energy\<close>


lemma sum_list_map2_mult:
  fixes u v :: vec
  assumes "length u = n" "length v = n"
  shows "sum_list (map2 (*) u v) = (\<Sum>i<n. u ! i * v ! i)"
  using dot_sum [OF assms] by (simp add: dot_def)

text \<open>
  C3. For a well-shaped model, an ambient batch and a latent batch of the model's widths with
  the same number of rows, \<open>get_energy\<close> returns for each row: minus the sum over the latent
  units of (ambient @ kernel) * latent, minus the mean (the sum divided by the latent size)
  of latent * latent_bias, minus the mean (the sum divided by the ambient size) of
  ambient * ambient_bias. The bias terms are means, not the sums of the textbook energy.
\<close>

theorem get_energy_formula:
  assumes "wf_rbm rbm" "batch (ambient_size rbm) x" "batch (latent_size rbm) h"
    and "length x = length h"
  shows "get_energy rbm x h = Inr (map2 (energy_row rbm) x h)"
proof -
  let ?W = "kernel rbm" and ?b = "latent_bias rbm" and ?v = "ambient_bias rbm"
  let ?a = "ambient_size rbm" and ?l = "latent_size rbm"
  let ?xW = "map (\<lambda>row. map (\<lambda>j. \<Sum>i<?a. row ! i * ?W ! i ! j) [0..<?l]) x"
  let ?xWh = "map2 (map2 (*)) ?xW h"
  let ?hb = "map (\<lambda>row. map2 (*) row ?b) h"
  let ?xv = "map (\<lambda>row. map2 (*) row ?v) x"
  let ?e = "map2 (-) (map uminus (reduce_sum_last ?xWh)) (reduce_mean_last ?hb)"
  have shapes: "length ?W = ?a" "batch ?l ?W" "length ?b = ?l" "length ?v = ?a" "0 < ?a"
    using assms(1) by (simp_all add: wf_rbm_def)
  have mm: "matmul x ?W = Inr ?xW"
    using matmul_rows [of ?W ?l x] shapes assms(2) by simp
  have "batch ?l ?xW" by (simp add: batch_iff)
  then have xWh: "elementwise (*) ?xW h = Inr ?xWh"
    using assms(3,4) by (intro elementwise_same) simp_all
  have hb: "elementwise (*) h [?b] = Inr ?hb"
    using assms(3) shapes by (intro elementwise_bias) simp
  have xv: "elementwise (*) x [?v] = Inr ?xv"
    using assms(2) shapes by (intro elementwise_bias) simp
  have e: "broadcast_vec (-) (map uminus (reduce_sum_last ?xWh)) (reduce_mean_last ?hb) = Inr ?e"
    using assms(4) by (intro broadcast_vec_same) (simp add: reduce_sum_last_def reduce_mean_last_def)
  have e2: "broadcast_vec (-) ?e (reduce_mean_last ?xv) = Inr (map2 (-) ?e (reduce_mean_last ?xv))"
    using assms(4) by (intro broadcast_vec_same) (simp add: reduce_sum_last_def reduce_mean_last_def)
  have "map2 (-) ?e (reduce_mean_last ?xv) = map2 (energy_row rbm) x h"
  proof (rule nth_equalityI)
    show "length (map2 (-) ?e (reduce_mean_last ?xv)) = length (map2 (energy_row rbm) x h)"
      using assms(4) by (simp add: reduce_sum_last_def reduce_mean_last_def)
  next
    fix n
    assume "n < length (map2 (-) ?e (reduce_mean_last ?xv))"
    then have n: "n < length x" "n < length h"
      using assms(4) by (simp_all add: reduce_sum_last_def reduce_mean_last_def)
    have lx: "length (x ! n) = ?a" and lh: "length (h ! n) = ?l"
      using n assms(2,3) by (simp_all add: batch_iff)
    have s1: "sum_list (map2 (*) (?xW ! n) (h ! n)) =
              (\<Sum>j<?l. (\<Sum>i<?a. x ! n ! i * ?W ! i ! j) * h ! n ! j)"
      using n lh by (subst sum_list_map2_mult [of _ ?l]) simp_all
    have s2: "sum_list (map2 (*) (h ! n) ?b) = (\<Sum>j<?l. h ! n ! j * ?b ! j)"
      using lh shapes by (intro sum_list_map2_mult) simp_all
    have s3: "sum_list (map2 (*) (x ! n) ?v) = (\<Sum>i<?a. x ! n ! i * ?v ! i)"
      using lx shapes by (intro sum_list_map2_mult) simp_all
    show "map2 (-) ?e (reduce_mean_last ?xv) ! n = map2 (energy_row rbm) x h ! n"
      using n lx lh shapes s1 s2 s3
      by (simp add: reduce_sum_last_def reduce_mean_last_def energy_row_def)
  qed
  with mm xWh hb xv e e2 show ?thesis
    using shapes by (simp add: get_energy_def Let_def bind_def)
qed

lemma wf_energy_rbm: "wf_rbm energy_rbm"
  by (simp add: wf_rbm_def energy_rbm_def batch_def)

theorem get_energy_formula_witness:
  "wf_rbm energy_rbm \<and> batch (ambient_size energy_rbm) [[1, 1]]
   \<and> batch (latent_size energy_rbm) [[1, 0]]
   \<and> get_energy energy_rbm [[1, 1]] [[1, 0]] = Inr [- 15 / 2]
   \<and> textbook_energy_row energy_rbm [1, 1] [1, 0] = - 11"
proof -
  have x: "batch (ambient_size energy_rbm) [[1, 1]]"
    and h: "batch (latent_size energy_rbm) [[1, 0]]"
    by (simp_all add: batch_def energy_rbm_def)
  have "energy_row energy_rbm [1, 1] [1, 0] = - 15 / 2"
    by (simp add: energy_row_def energy_rbm_def lessThan_Suc numeral_2_eq_2)
  moreover have "textbook_energy_row energy_rbm [1, 1] [1, 0] = - 11"
    by (simp add: textbook_energy_row_def energy_rbm_def lessThan_Suc numeral_2_eq_2)
  ultimately show ?thesis
    using get_energy_formula [OF wf_energy_rbm x h] wf_energy_rbm x h by simp
qed


subsection \<open>The gradient formulas\<close>


lemma batch_activate_True:
  assumes "batch n p"
  shows "batch n (fst (activate p True g))" "length (fst (activate p True g)) = length p"
proof -
  obtain u g' where r: "random (shape p) g = (u, g')" by (cases "random (shape p) g")
  have act: "fst (activate p True g) = tf_cast (tf_where (map2 (map2 (\<le>)) u p) 1 0)"
    by (simp add: activate_def r)
  show "length (fst (activate p True g)) = length p"
    using r by (auto simp: act tf_cast_def tf_where_def random_def shape_def)
  show "batch n (fst (activate p True g))"
  proof (cases p)
    case Nil
    with act show ?thesis by (simp add: tf_cast_def tf_where_def batch_def)
  next
    case (Cons row rest)
    with assms have "length row = n" by (simp add: batch_def)
    with Cons r have "batch n u"
      by (auto simp: random_def shape_def batch_iff)
    have "length r = n \<and> length s = n" if "(r, s) \<in> set (zip u p)" for r s
      using that assms \<open>batch n u\<close> by (auto simp: batch_iff dest: set_zip_leftD set_zip_rightD)
    then show ?thesis
      by (auto simp: act tf_cast_def tf_where_def batch_iff)
  qed
qed

lemma expect_batch_mean:
  assumes "batch n x" "x \<noteq> []"
  shows "expect x = batch_mean n x"
proof -
  have "transpose x = map (\<lambda>j. map (\<lambda>k. x ! k ! j) [0..<length x]) [0..<n]"
    using assms by (intro transpose_rect) simp_all
  moreover have "sum_list (map (\<lambda>k. x ! k ! j) [0..<length x]) = (\<Sum>k<length x. x ! k ! j)" for j
    by (simp add: interv_sum_list_conv_sum_set_nat atLeast0LessThan)
  ultimately show ?thesis by (simp add: expect_def batch_mean_def comp_def)
qed

lemma outer_same: "length x = length y \<Longrightarrow> outer x y = Inr (map2 outer_row x y)"
  by (simp add: outer_def)

lemma expect3_outer:
  assumes "batch a x" "batch l y" "length x = length y" "x \<noteq> []"
  shows "expect3 (map2 outer_row x y) = batch_mean_outer a l x y"
proof -
  let ?X = "map2 outer_row x y"
  let ?B = "length x"
  have len: "length ?X = ?B" using assms(3) by simp
  have nth: "?X ! k = outer_row (x ! k) (y ! k)" if "k < ?B" for k
    using that assms(3) by simp
  have rows: "length (x ! k) = a" "length (y ! k) = l" if "k < ?B" for k
    using that assms(1,2,3) by (simp_all add: batch_iff)
  have "transpose ?X = map (\<lambda>i. map (\<lambda>k. ?X ! k ! i) [0..<length ?X]) [0..<a]"
  proof (rule transpose_rectangle)
    show "?X = [] \<Longrightarrow> a = 0" using assms(3,4) by (cases x; cases y) simp_all
    show "length (?X ! i) = a" if "i < length ?X" for i
      using that len nth rows by (simp add: outer_row_def)
  qed
  then have tr: "transpose ?X = map (\<lambda>i. map (\<lambda>k. map (\<lambda>yj. x ! k ! i * yj) (y ! k)) [0..<?B]) [0..<a]"
    unfolding len using nth rows by (auto simp: outer_row_def)
  have "expect (map (\<lambda>k. map (\<lambda>yj. x ! k ! i * yj) (y ! k)) [0..<?B]) =
        map (\<lambda>j. (\<Sum>k<?B. x ! k ! i * y ! k ! j) / real ?B) [0..<l]" for i
  proof -
    let ?M = "map (\<lambda>k. map (\<lambda>yj. x ! k ! i * yj) (y ! k)) [0..<?B]"
    have "batch l ?M" using rows by (auto simp: batch_iff)
    moreover have "?M \<noteq> []" using assms(4) by simp
    ultimately have "expect ?M = batch_mean l ?M" by (rule expect_batch_mean)
    also have "\<dots> = map (\<lambda>j. (\<Sum>k<?B. x ! k ! i * y ! k ! j) / real ?B) [0..<l]"
      using rows by (auto simp: batch_mean_def)
    finally show ?thesis .
  qed
  then show ?thesis by (simp add: expect3_def tr batch_mean_outer_def comp_def)
qed


lemma shape_batch_mean: "length (batch_mean n x) = n"
  by (simp add: batch_mean_def)

lemma shape_batch_mean_outer:
  "length (batch_mean_outer a l x y) = a" "batch l (batch_mean_outer a l x y)"
  by (simp_all add: batch_mean_outer_def batch_iff)

text \<open>
  C2. For a well-shaped model and non-empty batches of the model's widths,
  \<open>get_grads_and_vars\<close> returns exactly three (gradient, parameter) pairs, for the kernel,
  the latent bias and the ambient bias in this order. With \<open>real_latent\<close> the stochastic
  activation of the latent probabilities of \<open>real_ambient\<close> and \<open>fantasy_ambient\<close> the
  stochastic activation of the ambient probabilities of \<open>fantasy_latent\<close> (drawn in this
  order), the kernel gradient is the batch mean of the outer products of the fantasy ambient
  probabilities with \<open>fantasy_latent\<close> minus the batch mean of the outer products of
  \<open>real_ambient\<close> with \<open>real_latent\<close>; the latent bias gradient is the batch mean of
  \<open>fantasy_latent\<close> minus that of \<open>real_latent\<close>; the ambient bias gradient is the
  batch mean of \<open>fantasy_ambient\<close> minus that of \<open>real_ambient\<close>.
\<close>

theorem get_grads_and_vars_formula:
  assumes "wf_rbm rbm"
    and "batch (ambient_size rbm) real_ambient" "real_ambient \<noteq> []"
    and "batch (latent_size rbm) fantasy_latent" "fantasy_latent \<noteq> []"
    and "activate (latent_prob rbm real_ambient) True g = (real_latent, g1)"
    and "activate (ambient_prob rbm fantasy_latent) True g1 = (fantasy_ambient, g2)"
  shows "prob_latent_given_ambient rbm real_ambient = Inr (latent_prob rbm real_ambient)
    \<and> prob_ambient_given_latent rbm fantasy_latent = Inr (ambient_prob rbm fantasy_latent)
    \<and> get_grads_and_vars rbm real_ambient fantasy_latent g =
        Inr ([(Rank2 (map2 (map2 (-))
                       (batch_mean_outer (ambient_size rbm) (latent_size rbm)
                          (ambient_prob rbm fantasy_latent) fantasy_latent)
                       (batch_mean_outer (ambient_size rbm) (latent_size rbm)
                          real_ambient real_latent)),
               Rank2 (kernel rbm)),
              (Rank1 (map2 (-) (batch_mean (latent_size rbm) fantasy_latent)
                               (batch_mean (latent_size rbm) real_latent)),
               Rank1 (latent_bias rbm)),
              (Rank1 (map2 (-) (batch_mean (ambient_size rbm) fantasy_ambient)
                               (batch_mean (ambient_size rbm) real_ambient)),
               Rank1 (ambient_bias rbm))],
             rbm, g2)"
proof -
  let ?a = "ambient_size rbm" and ?l = "latent_size rbm"
  let ?fap = "ambient_prob rbm fantasy_latent"
  have pl: "prob_latent_given_ambient rbm real_ambient = Inr (latent_prob rbm real_ambient)"
    using assms(1,2) by (rule prob_latent_given_ambient_eq)
  have pa: "prob_ambient_given_latent rbm fantasy_latent = Inr ?fap"
    using assms(1,4) by (rule prob_ambient_given_latent_eq)
  have rl: "batch ?l real_latent" "length real_latent = length real_ambient"
    using batch_activate_True [OF batch_latent_prob, of rbm real_ambient g] assms(6)
    by (simp_all add: length_latent_prob)
  have fa: "batch ?a fantasy_ambient" "length fantasy_ambient = length fantasy_latent"
    using batch_activate_True [OF batch_ambient_prob, of rbm fantasy_latent g1] assms(7)
    by (simp_all add: length_ambient_prob)
  have fap: "batch ?a ?fap" "length ?fap = length fantasy_latent" "?fap \<noteq> []"
    using assms(5) length_ambient_prob [of rbm fantasy_latent]
    by (auto simp: batch_ambient_prob)
  have nonempty: "real_latent \<noteq> []" "fantasy_ambient \<noteq> []"
    using rl(2) fa(2) assms(3,5) by auto
  have o1: "outer ?fap fantasy_latent = Inr (map2 outer_row ?fap fantasy_latent)"
    using fap(2) by (rule outer_same)
  have o2: "outer real_ambient real_latent = Inr (map2 outer_row real_ambient real_latent)"
    using rl(2) by (intro outer_same) simp
  have e1: "expect3 (map2 outer_row ?fap fantasy_latent) =
            batch_mean_outer ?a ?l ?fap fantasy_latent"
    using fap assms(4) by (intro expect3_outer)
  have e2: "expect3 (map2 outer_row real_ambient real_latent) =
            batch_mean_outer ?a ?l real_ambient real_latent"
    using assms(2,3) rl by (intro expect3_outer) simp_all
  have gk: "elementwise (-) (batch_mean_outer ?a ?l ?fap fantasy_latent)
              (batch_mean_outer ?a ?l real_ambient real_latent) =
            Inr (map2 (map2 (-)) (batch_mean_outer ?a ?l ?fap fantasy_latent)
              (batch_mean_outer ?a ?l real_ambient real_latent))"
    by (intro elementwise_same [of _ _ ?l]) (simp_all add: shape_batch_mean_outer)
  have means: "expect fantasy_latent = batch_mean ?l fantasy_latent"
    "expect real_latent = batch_mean ?l real_latent"
    "expect fantasy_ambient = batch_mean ?a fantasy_ambient"
    "expect real_ambient = batch_mean ?a real_ambient"
    using assms(2-5) rl(1) fa(1) nonempty by (simp_all add: expect_batch_mean)
  have "get_grads_and_vars rbm real_ambient fantasy_latent g = Inr
      ([(Rank2 (map2 (map2 (-)) (batch_mean_outer ?a ?l ?fap fantasy_latent)
                  (batch_mean_outer ?a ?l real_ambient real_latent)), Rank2 (kernel rbm)),
        (Rank1 (map2 (-) (batch_mean ?l fantasy_latent) (batch_mean ?l real_latent)),
         Rank1 (latent_bias rbm)),
        (Rank1 (map2 (-) (batch_mean ?a fantasy_ambient) (batch_mean ?a real_ambient)),
         Rank1 (ambient_bias rbm))], rbm, g2)"
    by (simp add: get_grads_and_vars_def bind_def pl pa assms(6,7) o1 o2 e1 e2 gk means
        broadcast_vec_same shape_batch_mean)
  with pl pa show ?thesis by simp
qed


lemmas eval_sample =
  activate_def random_def shape_def tf_where_def tf_cast_def rng0_def sigmoid_pos less_imp_le

theorem get_grads_and_vars_formula_witness:
  "wf_rbm example_rbm
   \<and> batch (ambient_size example_rbm) [[0, 1], [1, 0]]
   \<and> batch (latent_size example_rbm) [[1], [0]]
   \<and> activate (latent_prob example_rbm [[0, 1], [1, 0]]) True rng0 = ([[1], [1]], rng0)
   \<and> activate (ambient_prob example_rbm [[1], [0]]) True rng0 = ([[1, 1], [1, 1]], rng0)
   \<and> get_grads_and_vars example_rbm [[0, 1], [1, 0]] [[1], [0]] rng0 =
       Inr ([(Rank2 [[sigmoid 1 / 2 - 1 / 2], [sigmoid (- 1) / 2 - 1 / 2]], Rank2 [[1], [- 1]]),
             (Rank1 [- 1 / 2], Rank1 [0]),
             (Rank1 [1 / 2, 1 / 2], Rank1 [0, 0])], example_rbm, rng0)"
proof -
  have ra: "batch (ambient_size example_rbm) [[0, 1], [1, 0]]"
    and fl: "batch (latent_size example_rbm) [[1], [0]]"
    by (simp_all add: batch_def example_rbm_def)
  have rl: "activate (latent_prob example_rbm [[0, 1], [1, 0]]) True rng0 = ([[1], [1]], rng0)"
    by (simp add: latent_prob_def example_rbm_def lessThan_Suc numeral_2_eq_2 eval_sample)
  have fap: "ambient_prob example_rbm [[1], [0]] = [[sigmoid 1, sigmoid (- 1)], [1 / 2, 1 / 2]]"
    by (simp add: ambient_prob_def example_rbm_def lessThan_Suc numeral_2_eq_2 sigmoid_def)
  have fa: "activate (ambient_prob example_rbm [[1], [0]]) True rng0 = ([[1, 1], [1, 1]], rng0)"
    unfolding fap by (simp add: eval_sample)
  have sizes: "ambient_size example_rbm = 2" "latent_size example_rbm = 1"
    "kernel example_rbm = [[1], [- 1]]" "latent_bias example_rbm = [0]"
    "ambient_bias example_rbm = [0, 0]"
    by (simp_all add: example_rbm_def)
  have "get_grads_and_vars example_rbm [[0, 1], [1, 0]] [[1], [0]] rng0 =
       Inr ([(Rank2 [[sigmoid 1 / 2 - 1 / 2], [sigmoid (- 1) / 2 - 1 / 2]], Rank2 [[1], [- 1]]),
             (Rank1 [- 1 / 2], Rank1 [0]),
             (Rank1 [1 / 2, 1 / 2], Rank1 [0, 0])], example_rbm, rng0)"
    using get_grads_and_vars_formula [OF wf_example_rbm ra _ fl _ rl fa]
    unfolding fap sizes
    by (simp add: batch_mean_def batch_mean_outer_def lessThan_Suc numeral_2_eq_2)
  with wf_example_rbm ra fl rl fa show ?thesis by simp
qed

subsection \<open>Rendering the history\<close>


lemma is_digit_digit: "is_digit (digit d)"
  by (simp add: is_digit_def digit_def)

lemma length_frac5: "length (frac5 m) = 5"
  by (simp add: frac5_def)

lemma digits_frac5: "list_all is_digit (frac5 m)"
  by (simp add: frac5_def is_digit_digit)

lemma decimal_places_append:
  assumes "length fp = n" "list_all is_digit fp"
  shows "decimal_places n (ip @ ''.'' @ fp)"
  using assms by (simp add: decimal_places_def nth_append list_all_iff)

lemma decimal_places_finite: "decimal_places 5 (format_5f (Finite r))"
proof -
  obtain ip m where "format_5f (Finite r) = ip @ ''.'' @ frac5 m"
    by (simp add: format_5f_def Let_def) (metis append.assoc)
  then show ?thesis
    by (simp only: decimal_places_append [OF length_frac5 digits_frac5])
qed

lemma decimal_places_negzero: "decimal_places 5 (format_5f NegZero)"
  by (simp add: format_5f_def decimal_places_def is_digit_def)

lemma format_5f_special:
  "format_5f PosInf = ''inf''" "format_5f NegInf = ''-inf''" "format_5f NaN = ''nan''"
  by (simp_all add: format_5f_def)

lemma getitem_entries: "fst (getitem h step) = entries h step"
  by (simp add: getitem_def entries_def split: option.splits)

lemma entries_getitem: "entries (snd (getitem h step)) step = entries h step"
  by (simp add: getitem_def entries_def split: option.splits)

lemma show_loop_result:
  "fst (show_loop h step ks aspects) =
     (if list_all (\<lambda>k. supported (dict_get (entries h step) k PyNone)) ks
      then Inr (aspects @ map (\<lambda>k. k @ '': '' @ render (dict_get (entries h step) k PyNone)) ks)
      else Inl ValueError)"
proof (induction ks arbitrary: h aspects)
  case Nil
  show ?case by simp
next
  case (Cons k ks)
  obtain d h1 where g: "getitem h step = (d, h1)" by (cases "getitem h step")
  then have d: "d = entries h step" and h1: "entries h1 step = entries h step"
    using getitem_entries [of h step] entries_getitem [of h step] by simp_all
  show ?case
    by (cases "dict_get d k PyNone")
       (simp_all add: g Cons.IH h1 d [symmetric] supported_def render_def)
qed

lemma History_show_result:
  "fst (History_show h step keys) =
     (if list_all (\<lambda>k. supported (dict_get (entries h step) k PyNone)) (shown_keys h step keys)
      then Inr (join '' - '' ((''step: '' @ str_int step) #
                  map (\<lambda>k. k @ '': '' @ render (dict_get (entries h step) k PyNone))
                      (shown_keys h step keys)))
      else Inl ValueError)"
proof (cases keys)
  case None
  obtain d h1 where g: "getitem h step = (d, h1)" by (cases "getitem h step")
  then have d: "d = entries h step" and h1: "entries h1 step = entries h step"
    using getitem_entries [of h step] entries_getitem [of h step] by simp_all
  obtain r h2 where l: "show_loop h1 step (map fst d) [] = (r, h2)"
    by (cases "show_loop h1 step (map fst d) []")
  with show_loop_result [of h1 step "map fst d" "[]"] have "r = 
     (if list_all (\<lambda>k. supported (dict_get (entries h step) k PyNone)) (map fst d)
      then Inr (map (\<lambda>k. k @ '': '' @ render (dict_get (entries h step) k PyNone)) (map fst d))
      else Inl ValueError)"
    by (simp add: h1)
  with None g l show ?thesis
    by (simp add: History_show_def shown_keys_def d [symmetric] bind_def)
next
  case (Some ks)
  obtain r h2 where l: "show_loop h step ks [] = (r, h2)"
    by (cases "show_loop h step ks []")
  with show_loop_result [of h step ks "[]"] have "r = 
     (if list_all (\<lambda>k. supported (dict_get (entries h step) k PyNone)) ks
      then Inr (map (\<lambda>k. k @ '': '' @ render (dict_get (entries h step) k PyNone)) ks)
      else Inl ValueError)"
    by simp
  with Some l show ?thesis
    by (simp add: History_show_def shown_keys_def bind_def)
qed


text \<open>
  C9 (amended). For every history, step and choice of keys, \<open>show\<close> renders the line
  \<open>step: n\<close> followed by one aspect \<open>key: value\<close> per shown key, joined by \<open>" - "\<close>,
  when every shown key holds a float or a string: a float is rendered by the format
  \<open>.5f\<close>, which gives a finite float (and negative zero) exactly 5 decimal places, and a
  string is passed through unchanged. When a shown key holds a value of any other type, or
  no value, the call raises \<open>ValueError\<close>. The non-finite floats are rendered as
  \<open>inf\<close>, \<open>-inf\<close> and \<open>nan\<close>.
\<close>

theorem History_show_rendering:
  "fst (History_show h step keys) =
     (if list_all (\<lambda>k. supported (dict_get (entries h step) k PyNone)) (shown_keys h step keys)
      then Inr (join '' - '' ((''step: '' @ str_int step) #
                  map (\<lambda>k. k @ '': '' @ render (dict_get (entries h step) k PyNone))
                      (shown_keys h step keys)))
      else Inl ValueError)
   \<and> render (PyFloat f) = format_5f f \<and> render (PyStr s) = s
   \<and> decimal_places 5 (format_5f (Finite r)) \<and> decimal_places 5 (format_5f NegZero)
   \<and> format_5f PosInf = ''inf'' \<and> format_5f NegInf = ''-inf'' \<and> format_5f NaN = ''nan''
   \<and> supported (PyFloat f) \<and> supported (PyStr s)
   \<and> \<not> supported (PyInt i) \<and> \<not> supported (PyBool b) \<and> \<not> supported PyNone
   \<and> \<not> supported (TfScalar f)"
  by (simp add: History_show_result decimal_places_finite decimal_places_negzero
      render_def supported_def format_5f_special)

lemmas eval_history =
  History_log_def History_init_def getitem_def entries_def shown_keys_def
  supported_def render_def format_5f_def round_half_even_def frac5_def digit_def
  str_int_def str_nat.simps

lemma example_entries:
  "entries (History_log (History_log History_init 3 ''loss'' (TfScalar (Finite (1 / 64))))
              3 ''kernel'' (PyStr ''0.00012 (0.01000)'')) 3 =
   [(''loss'', PyFloat (Finite (1 / 64))), (''kernel'', PyStr ''0.00012 (0.01000)'')]"
  by (simp add: eval_history)

lemma example_format: "format_5f (Finite (1 / 64)) = ''0.01562''"
  by (simp add: eval_history)

theorem History_show_rendering_witness:
  "fst (History_show
         (History_log (History_log History_init 3 ''loss'' (TfScalar (Finite (1 / 64))))
            3 ''kernel'' (PyStr ''0.00012 (0.01000)'')) 3 None) =
     Inr ''step: 3 - loss: 0.01562 - kernel: 0.00012 (0.01000)''
   \<and> fst (History_show
         (History_log (History_log History_init 3 ''loss'' (TfScalar (Finite (1 / 64))))
            3 ''kernel'' (PyStr ''0.00012 (0.01000)'')) 3 (Some [''loss'', ''lr''])) =
     Inl ValueError"
  using History_show_rendering
      [of "History_log (History_log History_init 3 ''loss'' (TfScalar (Finite (1 / 64))))
            3 ''kernel'' (PyStr ''0.00012 (0.01000)'')" 3 None]
    History_show_rendering
      [of "History_log (History_log History_init 3 ''loss'' (TfScalar (Finite (1 / 64))))
            3 ''kernel'' (PyStr ''0.00012 (0.01000)'')" 3 "Some [''loss'', ''lr'']"]
  unfolding example_entries
  by (simp add: shown_keys_def example_entries example_format render_def supported_def
      str_int_def str_nat.simps digit_def)

text \<open>
  The claim as stated fails for a float that is not finite: the logged value \<open>inf\<close> is
  rendered as \<open>inf\<close>, without decimal places.
\<close>

theorem History_show_rendering_counterexample:
  "fst (History_show (History_log History_init 0 ''loss'' (PyFloat PosInf)) 0 None) =
     Inr ''step: 0 - loss: inf''
   \<and> \<not> decimal_places 5 (format_5f PosInf)"
  by (simp add: History_show_def show_loop.simps bind_def eval_history decimal_places_def)

subsection \<open>The initializers of the ambient bias\<close>







end
